theory Spec2Isabelle
  imports Complex_Main "HOL-Library.Word"
begin

unbundle bit_operations_syntax

section \<open>Values of the host language\<close>

text \<open>
  The voice client is the class \<open>GeminiLive\<close>. Its audio samples are the elements of a
  \<open>Float32Array\<close>; every finite one is a dyadic rational, and the arithmetic that the
  framing code applies to them (scaling by \<open>32768\<close>, comparing with constants, truncating,
  dividing a 16-bit integer by \<open>32768.0\<close>) is exact in binary floating point. Samples
  are therefore modelled as \<open>real\<close>; \<open>NaN\<close> and the infinities are outside the model.
  Bytes are \<open>8 word\<close>, the elements of an \<open>Int16Array\<close> are \<open>16 word\<close>.
\<close>

type_synonym byte = "8 word"
type_synonym int16 = "16 word"

datatype js_error =
    InvalidCharacterError  \<comment> \<open>\<open>atob\<close> on text that is not base64\<close>
  | RangeError             \<comment> \<open>an \<open>Int16Array\<close> view over an odd number of bytes\<close>
  | NotSupportedError      \<comment> \<open>\<open>createBuffer\<close> asked for a buffer of no frames\<close>
  | TypeError              \<comment> \<open>a property read on \<open>undefined\<close>\<close>
  | HostError string       \<comment> \<open>an exception raised by a constructor or call of the platform\<close>

text \<open>
  An absent (\<open>undefined\<close>) string is \<open>None\<close>. A string is truthy when it is present and
  not empty; appended to another string, or placed in a template literal, an absent one
  reads \<open>undefined\<close>.
\<close>

definition truthy :: "string option \<Rightarrow> bool" where
  "truthy v = (case v of None \<Rightarrow> False | Some t \<Rightarrow> t \<noteq> [])"

definition js_string :: "string option \<Rightarrow> string" where
  "js_string v = (case v of None \<Rightarrow> ''undefined'' | Some t \<Rightarrow> t)"

section \<open>The binary-to-text encoding of the platform\<close>

text \<open>
  \<open>btoa\<close> and \<open>atob\<close> are functions of the browser. \<open>btoa\<close> is base64 with padding over
  the standard alphabet; \<open>atob\<close> is the forgiving decoder: it drops ASCII whitespace,
  removes one or two trailing \<open>=\<close> when the length is a multiple of four, rejects a
  length that is one more than a multiple of four and any character outside the
  alphabet, and discards the bits left over in a last group of two or three characters.
  A binary string (every character code below 256) is modelled as a list of bytes.
\<close>

definition b64_alphabet :: string where
  "b64_alphabet = ''ABCDEFGHIJKLMNOPQRSTUVWXYZabcdefghijklmnopqrstuvwxyz0123456789+/''"

definition b64_char :: "nat \<Rightarrow> char" where
  "b64_char n = b64_alphabet ! n"

fun index_of :: "'a \<Rightarrow> 'a list \<Rightarrow> nat option" where
  "index_of c [] = None"
| "index_of c (x # xs) = (if c = x then Some 0 else map_option Suc (index_of c xs))"

definition b64_value :: "char \<Rightarrow> nat option" where
  "b64_value c = index_of c b64_alphabet"

fun btoa :: "byte list \<Rightarrow> string" where
  "btoa [] = []"
| "btoa [a] =
     (let n = unat a * 16
      in [b64_char (n div 64), b64_char (n mod 64), CHR ''='', CHR ''=''])"
| "btoa [a, b] =
     (let n = (unat a * 256 + unat b) * 4
      in [b64_char (n div 4096), b64_char (n div 64 mod 64), b64_char (n mod 64), CHR ''=''])"
| "btoa (a # b # c # rest) =
     (let n = unat a * 65536 + unat b * 256 + unat c
      in [b64_char (n div 262144), b64_char (n div 4096 mod 64),
          b64_char (n div 64 mod 64), b64_char (n mod 64)] @ btoa rest)"

definition ascii_whitespace :: "char \<Rightarrow> bool" where
  "ascii_whitespace c = (c \<in> set [CHR 0x09, CHR 0x0A, CHR 0x0C, CHR 0x0D, CHR 0x20])"

definition strip_padding :: "string \<Rightarrow> string" where
  "strip_padding d =
     (case rev d of
        x # y # r \<Rightarrow>
          if x = CHR ''='' \<and> y = CHR ''='' then rev r
          else if x = CHR ''='' then rev (y # r) else d
      | [x] \<Rightarrow> if x = CHR ''='' then [] else d
      | [] \<Rightarrow> d)"

fun b64_bytes :: "nat list \<Rightarrow> byte list" where
  "b64_bytes (s1 # s2 # s3 # s4 # rest) =
     (let n = ((s1 * 64 + s2) * 64 + s3) * 64 + s4
      in [of_nat (n div 65536), of_nat (n div 256 mod 256), of_nat (n mod 256)]
         @ b64_bytes rest)"
| "b64_bytes [s1, s2, s3] =
     (let n = ((s1 * 64 + s2) * 64 + s3) div 4
      in [of_nat (n div 256), of_nat (n mod 256)])"
| "b64_bytes [s1, s2] = [of_nat ((s1 * 64 + s2) div 16)]"
| "b64_bytes _ = []"

definition atob :: "string \<Rightarrow> js_error + byte list" where
  "atob s =
     (let d = filter (\<lambda>c. \<not> ascii_whitespace c) s;
          d = (if length d mod 4 = 0 then strip_padding d else d)
      in if length d mod 4 = 1 then Inl InvalidCharacterError
         else case those (map b64_value d) of
                None \<Rightarrow> Inl InvalidCharacterError
              | Some vs \<Rightarrow> Inr (b64_bytes vs))"

text \<open>
  The output of \<open>btoa\<close> taken apart: the six-bit values that its characters stand for,
  and the padding that follows them.
\<close>

fun sextets :: "byte list \<Rightarrow> nat list" where
  "sextets [] = []"
| "sextets [a] = (let n = unat a * 16 in [n div 64, n mod 64])"
| "sextets [a, b] =
     (let n = (unat a * 256 + unat b) * 4 in [n div 4096, n div 64 mod 64, n mod 64])"
| "sextets (a # b # c # rest) =
     (let n = unat a * 65536 + unat b * 256 + unat c
      in [n div 262144, n div 4096 mod 64, n div 64 mod 64, n mod 64] @ sextets rest)"

fun b64_pad :: "byte list \<Rightarrow> string" where
  "b64_pad [] = []"
| "b64_pad [a] = ''==''"
| "b64_pad [a, b] = ''=''"
| "b64_pad (a # b # c # rest) = b64_pad rest"

section \<open>PCM framing\<close>

text \<open>
  \<open>encodeAudio\<close> (the method of that name) and \<open>decodeAudio\<close> (the statements at the
  head of \<open>playAudio\<close>, from \<open>atob\<close> to the loop that fills the channel). Storing a
  number in an \<open>Int16Array\<close> truncates it toward zero and keeps the low 16 bits; the
  byte view of the array is little-endian. An \<open>Int16Array\<close> over a buffer of odd length
  cannot be made: the constructor raises. Between the view and the loop the output
  context is asked for a buffer of as many frames as there are samples, and it makes no
  buffer of zero frames: \<open>createBuffer\<close> raises.
\<close>

definition trunc :: "real \<Rightarrow> int" where
  "trunc r = (if 0 \<le> r then \<lfloor>r\<rfloor> else \<lceil>r\<rceil>)"

definition to_int16 :: "real \<Rightarrow> int16" where
  "to_int16 r = word_of_int (trunc r)"

definition int16_bytes :: "int16 \<Rightarrow> byte list" where
  "int16_bytes w = [ucast w, ucast (drop_bit 8 w)]"

definition encodeAudio :: "real list \<Rightarrow> string" where
  "encodeAudio inputData =
     (let int16 = map (\<lambda>x. to_int16 (max (- 32768) (min 32767 (x * 32768)))) inputData;
          bytes = concat (map int16_bytes int16)
      in btoa bytes)"

fun int16_view :: "byte list \<Rightarrow> js_error + int16 list" where
  "int16_view [] = Inr []"
| "int16_view [b] = Inl RangeError"
| "int16_view (lo # hi # rest) =
     (case int16_view rest of
        Inl e \<Rightarrow> Inl e
      | Inr ws \<Rightarrow> Inr ((ucast lo OR push_bit 8 (ucast hi)) # ws))"

definition createBuffer :: "nat \<Rightarrow> js_error + nat" where
  "createBuffer frames = (if frames = 0 then Inl NotSupportedError else Inr frames)"

definition decodeAudio :: "string \<Rightarrow> js_error + real list" where
  "decodeAudio base64Data =
     (case atob base64Data of
        Inl e \<Rightarrow> Inl e
      | Inr bytes \<Rightarrow>
          (case int16_view bytes of
             Inl e \<Rightarrow> Inl e
           | Inr dataInt16 \<Rightarrow>
               (case createBuffer (length dataInt16) of
                  Inl e \<Rightarrow> Inl e
                | Inr frames \<Rightarrow>
                    Inr (map (\<lambda>w. real_of_int (sint w) / 32768) dataInt16))))"

section \<open>The session object\<close>

text \<open>
  The fields of \<open>GeminiLive\<close>. A platform object (an audio context, a media stream, a
  buffer source node, a live session) is identified by a handle. \<open>sources\<close> is a
  \<open>Set\<close>: a list without repetition, in insertion order. A promise is identified with
  its settlement: the callbacks passed to \<open>then\<close> run if and only if it is fulfilled, and
  what they do is recorded where they are registered. Times are seconds on the output
  clock, as \<open>real\<close>; the sum that advances \<open>nextStartTime\<close> is the exact one.
\<close>

type_synonym handle = nat

datatype promise = Fulfils handle | NeverFulfils

record live =
  audioContext :: "handle option"
  inputAudioContext :: "handle option"
  stream :: "handle option"
  nextStartTime :: real
  sources :: "handle list"
  sessionPromise :: "promise option"
  currentInputTranscription :: string
  currentOutputTranscription :: string

definition initial :: live where
  "initial = \<lparr>audioContext = None, inputAudioContext = None, stream = None,
     nextStartTime = 0, sources = [], sessionPromise = None,
     currentInputTranscription = [], currentOutputTranscription = []\<rparr>"

text \<open>
  What the object does to the outside, in the order it does it: the three callbacks given
  to the constructor, the calls on audio nodes, streams and contexts, and the two sends on
  the live session. Console output is not part of the model.
\<close>

datatype event =
    StatusChange bool                      \<comment> \<open>\<open>onStatusChange(active)\<close>\<close>
  | TranscriptUpdate string string bool    \<comment> \<open>\<open>onTranscriptUpdate(user, model, final)\<close>\<close>
  | ImageGenerated string                  \<comment> \<open>\<open>onImageGenerated(data)\<close>\<close>
  | SourceStart handle real                \<comment> \<open>\<open>source.start(when)\<close>\<close>
  | SourceStop handle                      \<comment> \<open>\<open>s.stop()\<close>\<close>
  | TracksStop handle                      \<comment> \<open>\<open>stream.getTracks().forEach(t => t.stop())\<close>\<close>
  | ContextClose handle                    \<comment> \<open>\<open>close()\<close> on an audio context\<close>
  | CaptureStart handle handle             \<comment> \<open>the stream source wired to a script processor\<close>
  | SendRealtimeInput handle string        \<comment> \<open>\<open>session.sendRealtimeInput\<close>, the data\<close>
  | SendToolResponse handle "string option" "string option" string
      \<comment> \<open>\<open>session.sendToolResponse\<close>: id, name, \<open>response.result\<close>\<close>

subsection \<open>Image generation\<close>

text \<open>
  The interface \<open>ImageGenerationResult\<close> of the types module: \<open>success\<close>, and the
  optional \<open>data\<close>, \<open>mimeType\<close> and \<open>error\<close>. The request to the image model either
  raises (with the \<open>message\<close> of the error) or returns (with the bytes of the first
  image, if any).
\<close>

record ImageGenerationResult =
  success :: bool
  data :: "string option"
  mimeType :: "string option"
  error :: "string option"

datatype api_outcome = ApiThrows "string option" | ApiReturns "string option"

definition generateImage :: "api_outcome \<Rightarrow> ImageGenerationResult" where
  "generateImage outcome =
     (case outcome of
        ApiReturns imageBytes \<Rightarrow>
          if truthy imageBytes
          then \<lparr>success = True, data = imageBytes, mimeType = Some ''image/jpeg'', error = None\<rparr>
          else \<lparr>success = False, data = None, mimeType = None,
                 error = Some ''No image generated.''\<rparr>
      | ApiThrows message \<Rightarrow>
          \<lparr>success = False, data = None, mimeType = None,
           error = Some (if truthy message then js_string message
                         else ''Failed to generate image.'')\<rparr>)"

subsection \<open>Teardown and connection\<close>

definition disconnect :: "live \<Rightarrow> live \<times> event list" where
  "disconnect s =
     (s\<lparr>stream := None, inputAudioContext := None, audioContext := None,
        sessionPromise := None, currentInputTranscription := [],
        currentOutputTranscription := []\<rparr>,
      [StatusChange False]
      @ (case stream s of None \<Rightarrow> [] | Some st \<Rightarrow> [TracksStop st])
      @ (case inputAudioContext s of None \<Rightarrow> [] | Some c \<Rightarrow> [ContextClose c])
      @ (case audioContext s of None \<Rightarrow> [] | Some c \<Rightarrow> [ContextClose c]))"

text \<open>
  What the platform answers during one run of \<open>connect\<close>: each of the two context
  constructors, \<open>getUserMedia\<close> and \<open>ai.live.connect\<close> either raises or returns. The
  promise of \<open>ai.live.connect\<close> is stored, not awaited.
\<close>

record platform =
  newInputContext :: "js_error + handle"
  newOutputContext :: "js_error + handle"
  getUserMedia :: "js_error + handle"
  liveConnect :: "js_error + promise"

definition connect_failed ::
  "js_error \<Rightarrow> event list \<Rightarrow> live \<Rightarrow> (js_error + unit) \<times> live \<times> event list" where
  "connect_failed e done s = (let (s', evs) = disconnect s in (Inl e, s', done @ evs))"

definition connect :: "platform \<Rightarrow> live \<Rightarrow> (js_error + unit) \<times> live \<times> event list" where
  "connect p s =
     (case newInputContext p of
        Inl e \<Rightarrow> connect_failed e [] s
      | Inr ictx \<Rightarrow>
          let s = s\<lparr>inputAudioContext := Some ictx\<rparr> in
          (case newOutputContext p of
             Inl e \<Rightarrow> connect_failed e [] s
           | Inr octx \<Rightarrow>
               let s = s\<lparr>audioContext := Some octx\<rparr> in
               (case getUserMedia p of
                  Inl e \<Rightarrow> connect_failed e [] s
                | Inr st \<Rightarrow>
                    let s = s\<lparr>stream := Some st\<rparr> in
                    (case liveConnect p of
                       Inl e \<Rightarrow> connect_failed e [StatusChange True] s
                     | Inr pr \<Rightarrow>
                         (Inr (), s\<lparr>sessionPromise := Some pr\<rparr>, [StatusChange True])))))"

definition handleOpen :: "live \<Rightarrow> live \<times> event list" where
  "handleOpen s =
     (case (stream s, inputAudioContext s) of
        (Some st, Some ictx) \<Rightarrow> (s, [CaptureStart st ictx])
      | _ \<Rightarrow> (s, []))"

text \<open>The handler \<open>onaudioprocess\<close> that \<open>handleOpen\<close> installs, on one window of samples.\<close>

definition onaudioprocess :: "live \<Rightarrow> real list \<Rightarrow> live \<times> event list" where
  "onaudioprocess s inputData =
     (case sessionPromise s of
        None \<Rightarrow> (s, [])
      | Some NeverFulfils \<Rightarrow> (s, [])
      | Some (Fulfils session) \<Rightarrow> (s, [SendRealtimeInput session (encodeAudio inputData)]))"

subsection \<open>Playback\<close>

text \<open>
  \<open>playAudio\<close> reads the clock of the output context and makes a new source node; both
  are given. Anything raised between \<open>atob\<close> and \<open>sources.add\<close> is caught and the chunk is
  dropped: text that is not base64, an odd number of bytes, and a chunk of no samples,
  for which the context makes no buffer. \<open>duration\<close> is the duration of the buffer, its
  frames at 24000 a second.
\<close>

definition set_add :: "handle \<Rightarrow> handle list \<Rightarrow> handle list" where
  "set_add h hs = (if h \<in> set hs then hs else hs @ [h])"

definition duration :: "real list \<Rightarrow> real" where
  "duration channelData = real (length channelData) / 24000"

definition playAudio :: "real \<Rightarrow> handle \<Rightarrow> live \<Rightarrow> string \<Rightarrow> live \<times> event list" where
  "playAudio currentTime source s base64Data =
     (case audioContext s of
        None \<Rightarrow> (s, [])
      | Some ctx \<Rightarrow>
          (case decodeAudio base64Data of
             Inl e \<Rightarrow> (s, [])
           | Inr channelData \<Rightarrow>
               let startTime = max currentTime (nextStartTime s)
               in (s\<lparr>nextStartTime := startTime + duration channelData,
                     sources := set_add source (sources s)\<rparr>,
                   [SourceStart source startTime])))"

definition stopAudio :: "live \<Rightarrow> live \<times> event list" where
  "stopAudio s = (s\<lparr>sources := []\<rparr>, map SourceStop (sources s))"

text \<open>The handler \<open>onended\<close> of a source node: \<open>sources.delete(source)\<close>.\<close>

definition onended :: "live \<Rightarrow> handle \<Rightarrow> live \<times> event list" where
  "onended s source = (s\<lparr>sources := filter (\<lambda>h. h \<noteq> source) (sources s)\<rparr>, [])"

text \<open>
  A run of \<open>playAudio\<close> over chunks, each with the clock reading and the node it is
  given, and the start times that a trace holds. \<open>playable\<close> says that a chunk reaches
  the scheduling statements, \<open>chunkDuration\<close> is the \<open>duration\<close> of its buffer, and
  \<open>keepsUp\<close> that at every enqueue the clock has not passed \<open>nextStartTime\<close>.
\<close>

fun playAll :: "live \<Rightarrow> (real \<times> handle \<times> string) list \<Rightarrow> live \<times> event list" where
  "playAll s [] = (s, [])"
| "playAll s ((now, source, chunk) # rest) =
     (let (s1, evs1) = playAudio now source s chunk;
          (s2, evs2) = playAll s1 rest
      in (s2, evs1 @ evs2))"

fun startTimes :: "event list \<Rightarrow> real list" where
  "startTimes [] = []"
| "startTimes (SourceStart h t # evs) = t # startTimes evs"
| "startTimes (ev # evs) = startTimes evs"

definition playable :: "string \<Rightarrow> bool" where
  "playable chunk = (case decodeAudio chunk of Inl e \<Rightarrow> False | Inr samples \<Rightarrow> samples \<noteq> [])"

definition chunkDuration :: "string \<Rightarrow> real" where
  "chunkDuration chunk = (case decodeAudio chunk of Inl e \<Rightarrow> 0 | Inr samples \<Rightarrow> duration samples)"

fun keepsUp :: "live \<Rightarrow> (real \<times> handle \<times> string) list \<Rightarrow> bool" where
  "keepsUp s [] = True"
| "keepsUp s ((now, source, chunk) # rest) =
     (now \<le> nextStartTime s \<and> keepsUp (fst (playAudio now source s chunk)) rest)"

subsection \<open>Tool calls\<close>

text \<open>
  One entry of \<open>toolCall.functionCalls\<close>. \<open>call_args\<close> is \<open>None\<close> when the call has no
  \<open>args\<close> object (reading \<open>args.prompt\<close> then raises), and \<open>Some prompt\<close> otherwise, the
  prompt itself possibly absent.
\<close>

record function_call =
  call_id :: "string option"
  call_name :: "string option"
  call_args :: "string option option"

text \<open>
  \<open>handleToolCall\<close> is asynchronous: it waits for each image before it answers, and reads
  \<open>sessionPromise\<close> when the image has arrived. The state given here is the state at that
  moment. The function \<open>api\<close> is what the image model answers to a prompt. The result is
  what the object did and, when the loop was left by an exception, that exception (the
  rejection of the promise that \<open>handleToolCall\<close> returns).
\<close>

fun dispatch :: "(string option \<Rightarrow> api_outcome) \<Rightarrow> live \<Rightarrow> function_call list \<Rightarrow>
    event list \<times> js_error option" where
  "dispatch api s [] = ([], None)"
| "dispatch api s (call # calls) =
     (if call_name call = Some ''create_image'' then
        (case call_args call of
           None \<Rightarrow> ([], Some TypeError)
         | Some prompt \<Rightarrow>
             let result = generateImage (api prompt);
                 shown = (if success result \<and> truthy (data result)
                          then [ImageGenerated (js_string (data result))] else []);
                 responseContent = (if success result \<and> truthy (data result)
                                    then ''Image generated successfully.''
                                    else ''Error: '' @ js_string (error result));
                 sent = (case sessionPromise s of
                           Some (Fulfils session) \<Rightarrow>
                             [SendToolResponse session (call_id call) (call_name call)
                                responseContent]
                         | _ \<Rightarrow> []);
                 (evs, r) = dispatch api s calls
             in (shown @ sent @ evs, r))
      else dispatch api s calls)"

definition handleToolCall :: "(string option \<Rightarrow> api_outcome) \<Rightarrow> live \<Rightarrow>
    function_call list option \<Rightarrow> event list \<times> js_error option" where
  "handleToolCall api s functionCalls =
     (case functionCalls of
        None \<Rightarrow> ([], None)
      | Some calls \<Rightarrow> dispatch api s calls)"

subsection \<open>Messages of the server\<close>

text \<open>
  The parts of a \<open>LiveServerMessage\<close> that \<open>handleMessage\<close> reads: the data of the first
  part of the model turn, the two transcriptions (each an object whose \<open>text\<close> may be
  absent), the two flags, and the function calls of \<open>toolCall\<close> (\<open>None\<close> when the message
  has no \<open>toolCall\<close>).
\<close>

record server_message =
  audioData :: "string option"
  outputTranscription :: "string option option"
  inputTranscription :: "string option option"
  turnComplete :: bool
  interrupted :: bool
  toolCall :: "function_call list option option"

definition no_message :: server_message where
  "no_message = \<lparr>audioData = None, outputTranscription = None, inputTranscription = None,
     turnComplete = False, interrupted = False, toolCall = None\<rparr>"

text \<open>What the surroundings supply while one message is handled.\<close>

record host =
  currentTime :: real
  newSource :: handle
  generateImages :: "string option \<Rightarrow> api_outcome"

definition handleAudio :: "host \<Rightarrow> server_message \<Rightarrow> live \<Rightarrow> live \<times> event list" where
  "handleAudio h m s =
     (if truthy (audioData m) \<and> audioContext s \<noteq> None
      then playAudio (currentTime h) (newSource h) s (js_string (audioData m))
      else (s, []))"

definition handleOutputTranscription :: "server_message \<Rightarrow> live \<Rightarrow> live \<times> event list" where
  "handleOutputTranscription m s =
     (case outputTranscription m of
        None \<Rightarrow> (s, [])
      | Some text \<Rightarrow>
          let s = s\<lparr>currentOutputTranscription := currentOutputTranscription s @ js_string text\<rparr>
          in (s, [TranscriptUpdate (currentInputTranscription s)
                    (currentOutputTranscription s) False]))"

definition handleInputTranscription :: "server_message \<Rightarrow> live \<Rightarrow> live \<times> event list" where
  "handleInputTranscription m s =
     (case inputTranscription m of
        None \<Rightarrow> (s, [])
      | Some text \<Rightarrow>
          let s = s\<lparr>currentInputTranscription := currentInputTranscription s @ js_string text\<rparr>
          in (s, [TranscriptUpdate (currentInputTranscription s)
                    (currentOutputTranscription s) False]))"

definition handleTurnComplete :: "server_message \<Rightarrow> live \<Rightarrow> live \<times> event list" where
  "handleTurnComplete m s =
     (if turnComplete m
      then (s\<lparr>currentInputTranscription := [], currentOutputTranscription := []\<rparr>,
            [TranscriptUpdate (currentInputTranscription s) (currentOutputTranscription s) True])
      else (s, []))"

definition handleInterruption :: "server_message \<Rightarrow> live \<Rightarrow> live \<times> event list" where
  "handleInterruption m s =
     (if interrupted m
      then (let (s, evs) = stopAudio s
            in (s\<lparr>currentOutputTranscription := [], nextStartTime := 0\<rparr>, evs))
      else (s, []))"

definition handleMessage :: "host \<Rightarrow> live \<Rightarrow> server_message \<Rightarrow> live \<times> event list" where
  "handleMessage h s m =
     (let (s, audio) = handleAudio h m s;
          (s, output) = handleOutputTranscription m s;
          (s, input) = handleInputTranscription m s;
          (s, final) = handleTurnComplete m s;
          (s, stopped) = handleInterruption m s;
          tool = (case toolCall m of
                    None \<Rightarrow> []
                  | Some functionCalls \<Rightarrow> fst (handleToolCall (generateImages h) s functionCalls))
      in (s, audio @ output @ input @ final @ stopped @ tool))"

subsection \<open>Runs\<close>

text \<open>
  Everything that can happen to the object: the two public methods, the four callbacks
  given to the transport (\<open>onclose\<close> and \<open>onerror\<close> both call \<open>disconnect\<close>), and the two
  handlers installed on audio nodes.
\<close>

datatype operation =
    Connect platform
  | Disconnect
  | Open
  | Message host server_message
  | Close
  | Error
  | AudioProcess "real list"
  | Ended handle

fun step :: "live \<Rightarrow> operation \<Rightarrow> live \<times> event list" where
  "step s (Connect p) = snd (connect p s)"
| "step s Disconnect = disconnect s"
| "step s Open = handleOpen s"
| "step s (Message h m) = handleMessage h s m"
| "step s Close = disconnect s"
| "step s Error = disconnect s"
| "step s (AudioProcess inputData) = onaudioprocess s inputData"
| "step s (Ended source) = onended s source"

fun run :: "live \<Rightarrow> operation list \<Rightarrow> live \<times> event list" where
  "run s [] = (s, [])"
| "run s (op # ops) =
     (let (s1, evs1) = step s op; (s2, evs2) = run s1 ops in (s2, evs1 @ evs2))"

fun interruption :: "operation \<Rightarrow> bool" where
  "interruption (Message h m) = interrupted m"
| "interruption _ = False"

subsection \<open>Reading messages and traces\<close>

text \<open>
  The text that a message adds to each transcript, lifted to operations; a partial event
  is a message that neither completes the turn nor interrupts it.
\<close>

definition inputText :: "server_message \<Rightarrow> string" where
  "inputText m = (case inputTranscription m of None \<Rightarrow> [] | Some text \<Rightarrow> js_string text)"

definition outputText :: "server_message \<Rightarrow> string" where
  "outputText m = (case outputTranscription m of None \<Rightarrow> [] | Some text \<Rightarrow> js_string text)"

fun partial :: "operation \<Rightarrow> bool" where
  "partial (Message h m) = (\<not> turnComplete m \<and> \<not> interrupted m)"
| "partial _ = False"

fun inputPartial :: "operation \<Rightarrow> string" where
  "inputPartial (Message h m) = inputText m"
| "inputPartial _ = []"

fun outputPartial :: "operation \<Rightarrow> string" where
  "outputPartial (Message h m) = outputText m"
| "outputPartial _ = []"

fun isFinal :: "event \<Rightarrow> bool" where
  "isFinal (TranscriptUpdate user model final) = final"
| "isFinal _ = False"

fun statusChanges :: "event list \<Rightarrow> bool list" where
  "statusChanges [] = []"
| "statusChanges (StatusChange active # evs) = active # statusChanges evs"
| "statusChanges (ev # evs) = statusChanges evs"








text \<open>
  Of a run of \<open>connect\<close>: whether the contexts and the stream were acquired, and the error
  of the first step that raises, if one does.
\<close>

definition acquired :: "platform \<Rightarrow> bool" where
  "acquired p =
     (case (newInputContext p, newOutputContext p, getUserMedia p) of
        (Inr ictx, Inr octx, Inr st) \<Rightarrow> True
      | _ \<Rightarrow> False)"

definition raised :: "platform \<Rightarrow> js_error option" where
  "raised p =
     (case newInputContext p of
        Inl e \<Rightarrow> Some e
      | Inr ictx \<Rightarrow>
          (case newOutputContext p of
             Inl e \<Rightarrow> Some e
           | Inr octx \<Rightarrow>
               (case getUserMedia p of
                  Inl e \<Rightarrow> Some e
                | Inr st \<Rightarrow> (case liveConnect p of Inl e \<Rightarrow> Some e | Inr pr \<Rightarrow> None))))"

subsection \<open>Sample values\<close>

text \<open>
  A platform on which every step of \<open>connect\<close> succeeds, and one whose transport never
  opens; a host whose image model always fails, and one that draws; a message with three
  samples of audio and a word of each transcript; the session that has connected, opened
  and handled that message at clock reading 1; a call of the image tool, and one without
  its arguments.
\<close>

definition devices :: platform where
  "devices = \<lparr>newInputContext = Inr 1, newOutputContext = Inr 2, getUserMedia = Inr 3,
     liveConnect = Inr (Fulfils 4)\<rparr>"

definition unreachable :: platform where
  "unreachable = \<lparr>newInputContext = Inr 1, newOutputContext = Inr 2, getUserMedia = Inr 3,
     liveConnect = Inr NeverFulfils\<rparr>"

definition quiet :: host where
  "quiet = \<lparr>currentTime = 1, newSource = 7, generateImages = (\<lambda>prompt. ApiThrows None)\<rparr>"

definition painter :: host where
  "painter = \<lparr>currentTime = 1, newSource = 7,
     generateImages = (\<lambda>prompt. ApiReturns (Some ''QUJD''))\<rparr>"

definition speech :: server_message where
  "speech = \<lparr>audioData = Some ''AEAAgP9/'', outputTranscription = Some (Some ''Sure''),
     inputTranscription = Some (Some ''draw''), turnComplete = False, interrupted = False,
     toolCall = None\<rparr>"

definition playing :: live where
  "playing = \<lparr>audioContext = Some 2, inputAudioContext = Some 1, stream = Some 3,
     nextStartTime = 8001 / 8000, sources = [7], sessionPromise = Some (Fulfils 4),
     currentInputTranscription = ''draw'', currentOutputTranscription = ''Sure''\<rparr>"

definition cat :: function_call where
  "cat = \<lparr>call_id = Some ''call-1'', call_name = Some ''create_image'',
     call_args = Some (Some ''a cat'')\<rparr>"


section \<open>The binary-to-text encoding is inverted by its decoder\<close>

lemma distinct_alphabet: "distinct b64_alphabet"
  by (simp add: b64_alphabet_def)

lemma length_alphabet: "length b64_alphabet = 64"
  by (simp add: b64_alphabet_def)

lemma index_of_nth: "distinct xs \<Longrightarrow> n < length xs \<Longrightarrow> index_of (xs ! n) xs = Some n"
proof (induction xs arbitrary: n)
  case Nil
  then show ?case by simp
next
  case (Cons x xs)
  show ?case
  proof (cases n)
    case 0
    then show ?thesis by simp
  next
    case (Suc m)
    with Cons.prems have "xs ! m \<noteq> x" "m < length xs" "distinct xs"
      by auto
    with Cons.IH [of m] Suc show ?thesis by simp
  qed
qed

lemma b64_value_char: "n < 64 \<Longrightarrow> b64_value (b64_char n) = Some n"
  unfolding b64_value_def b64_char_def
  by (rule index_of_nth) (simp_all add: distinct_alphabet length_alphabet)

lemma b64_char_mem: "n < 64 \<Longrightarrow> b64_char n \<in> set b64_alphabet"
  unfolding b64_char_def by (rule nth_mem) (simp add: length_alphabet)

lemma b64_char_not_pad: "n < 64 \<Longrightarrow> b64_char n \<noteq> CHR ''=''"
proof
  assume "n < 64" and "b64_char n = CHR ''=''"
  then have "CHR ''='' \<in> set b64_alphabet" using b64_char_mem by metis
  then show False by (simp add: b64_alphabet_def)
qed

lemma b64_char_not_ws: "n < 64 \<Longrightarrow> \<not> ascii_whitespace (b64_char n)"
proof
  assume "n < 64" and ws: "ascii_whitespace (b64_char n)"
  then have "b64_char n \<in> set b64_alphabet" using b64_char_mem by metis
  with ws show False by (auto simp: b64_alphabet_def ascii_whitespace_def)
qed

subsection \<open>Groups of three bytes\<close>

lemma unat_byte: "unat (a::byte) < 256"
proof -
  have "unat a < 2 ^ LENGTH(8)" by (rule unsigned_less)
  then show ?thesis by simp
qed

lemma sextets_bound: "\<forall>v \<in> set (sextets bs). v < 64"
proof (induction bs rule: sextets.induct)
  case (2 a)
  show ?case using unat_byte [of a] by (simp add: Let_def) 
next
  case (3 a b)
  show ?case using unat_byte [of a] unat_byte [of b] by (simp add: Let_def)
next
  case (4 a b c rest)
  then show ?case using unat_byte [of a] unat_byte [of b] unat_byte [of c] by (simp add: Let_def)
qed simp

lemma btoa_sextets: "btoa bs = map b64_char (sextets bs) @ b64_pad bs"
  by (induction bs rule: sextets.induct) (simp_all add: Let_def)

lemma b64_pad_cases: "b64_pad bs = [] \<or> b64_pad bs = ''='' \<or> b64_pad bs = ''==''"
  by (induction bs rule: b64_pad.induct) simp_all

lemma length_sextets_mod: "length (sextets bs) mod 4 \<noteq> Suc 0"
  by (induction bs rule: sextets.induct) (simp_all add: Let_def)

lemma length_btoa: "length (btoa bs) mod 4 = 0"
  by (induction bs rule: btoa.induct) (simp_all add: Let_def)

lemma filter_btoa: "filter (\<lambda>c. \<not> ascii_whitespace c) (btoa bs) = btoa bs"
proof -
  have pad: "\<not> ascii_whitespace CHR ''=''" by (simp add: ascii_whitespace_def)
  have "\<forall>c \<in> set (b64_pad bs). \<not> ascii_whitespace c"
    using b64_pad_cases [of bs] pad by auto
  moreover have "\<forall>c \<in> set (map b64_char (sextets bs)). \<not> ascii_whitespace c"
    using sextets_bound [of bs] by (auto simp: b64_char_not_ws)
  ultimately show ?thesis by (simp add: btoa_sextets filter_id_conv)
qed

lemma those_b64: "\<forall>v \<in> set vs. v < 64 \<Longrightarrow> those (map (b64_value \<circ> b64_char) vs) = Some vs"
  by (induction vs) (simp_all add: b64_value_char)

lemma strip_padding_chars:
  assumes "\<forall>v \<in> set vs. v < 64"
  shows "strip_padding (map b64_char vs) = map b64_char vs"
    and "strip_padding (map b64_char vs @ ''='') = map b64_char vs"
    and "strip_padding (map b64_char vs @ ''=='') = map b64_char vs"
proof -
  show "strip_padding (map b64_char vs @ ''=='') = map b64_char vs"
    by (simp add: strip_padding_def)
  show "strip_padding (map b64_char vs) = map b64_char vs"
  proof (cases "rev vs")
    case Nil
    then show ?thesis by (simp add: strip_padding_def)
  next
    case (Cons v r)
    then have "v \<in> set vs" by (metis list.set_intros(1) set_rev)
    with assms have "b64_char v \<noteq> CHR ''=''" by (simp add: b64_char_not_pad)
    with Cons show ?thesis by (simp add: strip_padding_def rev_map split: list.splits)
  qed
  show "strip_padding (map b64_char vs @ ''='') = map b64_char vs"
  proof (cases "rev vs")
    case Nil
    then show ?thesis by (simp add: strip_padding_def)
  next
    case (Cons v r)
    then have "v \<in> set vs" by (metis list.set_intros(1) set_rev)
    with assms have "b64_char v \<noteq> CHR ''=''" by (simp add: b64_char_not_pad)
    moreover from Cons have "map b64_char vs = rev (map b64_char (v # r))"
      by (metis rev_map rev_rev_ident)
    ultimately show ?thesis using Cons by (simp add: strip_padding_def rev_map)
  qed
qed

lemma strip_padding_btoa: "strip_padding (btoa bs) = map b64_char (sextets bs)"
  using b64_pad_cases [of bs] strip_padding_chars [OF sextets_bound, of bs]
  by (auto simp: btoa_sextets)

lemma sextets12: "n div 64 * 64 + n mod 64 = (n::nat)"
  by simp

lemma sextets18: "(n div 4096 * 64 + n div 64 mod 64) * 64 + n mod 64 = (n::nat)"
proof -
  have "n div 4096 = n div 64 div 64" by (simp add: div_mult2_eq)
  then have "n div 4096 * 64 + n div 64 mod 64 = n div 64" by simp
  then show ?thesis by simp
qed

lemma sextets24:
  "((n div 262144 * 64 + n div 4096 mod 64) * 64 + n div 64 mod 64) * 64 + n mod 64 = (n::nat)"
proof -
  have "n div 262144 = n div 4096 div 64" by (simp add: div_mult2_eq)
  then have "n div 262144 * 64 + n div 4096 mod 64 = n div 4096" by simp
  then show ?thesis using sextets18 [of n] by simp
qed

lemma bytes24:
  fixes a b c :: nat
  assumes "b < 256" and "c < 256"
  defines "n \<equiv> a * 65536 + b * 256 + c"
  shows "n div 65536 = a" and "n div 256 mod 256 = b" and "n mod 256 = c"
proof -
  define q where "q = a * 256 + b"
  have e: "n = q * 256 + c" by (simp add: n_def q_def)
  from assms(2) show "n mod 256 = c" by (simp add: e)
  from assms(2) have d: "n div 256 = q" by (simp add: e)
  from assms(1) show "n div 256 mod 256 = b" unfolding d by (simp add: q_def)
  have "n div 65536 = n div 256 div 256" by (simp add: div_mult2_eq)
  with assms(1) show "n div 65536 = a" unfolding d by (simp add: q_def)
qed

lemma b64_bytes_sextets: "b64_bytes (sextets bs) = bs"
proof (induction bs rule: sextets.induct)
  case 1
  show ?case by simp
next
  case (2 a)
  define n where "n = unat a * 16"
  have s: "sextets [a] = [n div 64, n mod 64]"
    by (simp add: Let_def n_def)
  have "n div 16 = unat a" by (simp add: n_def)
  then show ?case unfolding s by (simp add: sextets12)
next
  case (3 a b)
  define n where "n = (unat a * 256 + unat b) * 4"
  have s: "sextets [a, b] = [n div 4096, n div 64 mod 64, n mod 64]"
    by (simp add: Let_def n_def)
  have "n div 4 div 256 = unat a" "n div 4 mod 256 = unat b"
    using unat_byte [of a] unat_byte [of b] by (simp_all add: n_def)
  then show ?case unfolding s using sextets18 [of n] by (simp add: Let_def)
next
  case (4 a b c rest)
  define n where "n = unat a * 65536 + unat b * 256 + unat c"
  have s: "sextets (a # b # c # rest) =
      [n div 262144, n div 4096 mod 64, n div 64 mod 64, n mod 64] @ sextets rest"
    by (simp add: Let_def n_def)
  have "n div 65536 = unat a" "n div 256 mod 256 = unat b" "n mod 256 = unat c"
    unfolding n_def by (rule bytes24 [OF unat_byte unat_byte])+
  with 4 show ?case unfolding s using sextets24 [of n] by (simp add: Let_def)
qed

lemma atob_btoa: "atob (btoa bs) = Inr bs"
  by (simp add: atob_def Let_def filter_btoa length_btoa strip_padding_btoa
      length_sextets_mod those_b64 sextets_bound b64_bytes_sextets)

section \<open>PCM round trip\<close>

lemma int16_bytes_view: "int16_view (concat (map int16_bytes ws)) = Inr ws"
proof (induction ws)
  case Nil
  show ?case by simp
next
  case (Cons w ws)
  have "ucast (ucast w :: byte) OR push_bit 8 (ucast (ucast (drop_bit 8 w) :: byte)) = w"
    by (rule bit_word_eqI) (auto simp: bit_simps)
  with Cons show ?case by (simp add: int16_bytes_def)
qed

lemma sint_int16: "- 32768 \<le> k \<Longrightarrow> k \<le> 32767 \<Longrightarrow> sint (word_of_int k :: int16) = k"
  by (simp add: signed_of_int signed_take_bit_int_eq_self)

lemma trunc_error: "\<bar>real_of_int (trunc r) - r\<bar> < 1"
  unfolding trunc_def by (auto; linarith)

lemma trunc_mono: "real_of_int a \<le> r \<Longrightarrow> r \<le> real_of_int b \<Longrightarrow> a \<le> trunc r \<and> trunc r \<le> b"
  unfolding trunc_def by (auto simp: le_floor_iff floor_le_iff ceiling_le_iff le_ceiling_iff; linarith)

lemma trunc_word: "trunc 32767 = 32767"
  by (simp add: trunc_def)

lemma sint_clamped:
  "sint (to_int16 (max (- 32768) (min 32767 r))) = trunc (max (- 32768) (min 32767 r))"
proof -
  define y where "y = max (- 32768) (min 32767 r)"
  have "real_of_int (- 32768) \<le> y" "y \<le> real_of_int 32767" by (simp_all add: y_def)
  then have "- 32768 \<le> trunc y \<and> trunc y \<le> 32767" by (rule trunc_mono)
  then show ?thesis unfolding to_int16_def y_def [symmetric] by (simp add: sint_int16)
qed

lemma decode_encode:
  assumes "xs \<noteq> []"
  shows "decodeAudio (encodeAudio xs) =
     Inr (map (\<lambda>x. real_of_int (trunc (max (- 32768) (min 32767 (x * 32768)))) / 32768) xs)"
proof -
  define ws where "ws = map (\<lambda>x. to_int16 (max (- 32768) (min 32767 (x * 32768)))) xs"
  have "encodeAudio xs = btoa (concat (map int16_bytes ws))"
    by (simp add: encodeAudio_def ws_def)
  moreover from assms have "createBuffer (length ws) = Inr (length ws)"
    by (simp add: createBuffer_def ws_def)
  ultimately
  have "decodeAudio (encodeAudio xs) = Inr (map (\<lambda>w. real_of_int (sint w) / 32768) ws)"
    by (simp add: decodeAudio_def atob_btoa int16_bytes_view del: of_int_sint)
  also have "map (\<lambda>w. real_of_int (sint w) / 32768) ws =
      map (\<lambda>x. real_of_int (trunc (max (- 32768) (min 32767 (x * 32768)))) / 32768) xs"
    by (simp add: ws_def sint_clamped del: of_int_sint)
  finally show ?thesis .
qed

lemma sample_error:
  assumes "- 1 \<le> x" and "x \<le> 1"
  shows "\<bar>real_of_int (trunc (max (- 32768) (min 32767 (x * 32768)))) / 32768 - x\<bar> \<le> 1 / 32768"
proof (cases "x * 32768 \<le> 32767")
  case True
  with assms have "max (- 32768) (min 32767 (x * 32768)) = x * 32768" by simp
  moreover have "\<bar>real_of_int (trunc (x * 32768)) - x * 32768\<bar> < 1" by (rule trunc_error)
  ultimately show ?thesis by (simp add: field_simps abs_if split: if_splits)
next
  case False
  then have "max (- 32768) (min 32767 (x * 32768)) = 32767" by simp
  with False assms show ?thesis by (simp add: trunc_word field_simps abs_if)
qed

text \<open>
  C1 as stated does not hold of the empty sequence: its encoding is the empty text, and
  decoding the empty text produces no sequence, because the buffer of zero frames is
  refused.
\<close>

theorem pcm_round_trip_counterexample:
  "encodeAudio [] = [] \<and> decodeAudio (encodeAudio []) = Inl NotSupportedError"
  by (simp add: encodeAudio_def decodeAudio_def atob_def strip_padding_def createBuffer_def)

text \<open>
  C1, amended. For every sequence of samples in \<open>[-1, 1]\<close> that is not empty, decoding
  the text that \<open>encodeAudio\<close> produces succeeds and gives a sequence of the same length
  whose \<open>i\<close>-th element differs from the \<open>i\<close>-th sample by at most \<open>1/32768\<close>: it is the
  sample scaled by \<open>32768\<close>, clamped to the 16-bit range, truncated toward zero and
  divided by \<open>32768\<close>.
\<close>

theorem pcm_round_trip:
  assumes "xs \<noteq> []" and "\<forall>x \<in> set xs. - 1 \<le> x \<and> x \<le> 1"
  shows "\<exists>ys. decodeAudio (encodeAudio xs) = Inr ys \<and> length ys = length xs \<and>
           (\<forall>i < length xs. \<bar>ys ! i - xs ! i\<bar> \<le> 1 / 32768) \<and>
           ys = map (\<lambda>x. real_of_int (trunc (max (- 32768) (min 32767 (x * 32768)))) / 32768) xs"
proof -
  let ?q = "\<lambda>x. real_of_int (trunc (max (- 32768) (min 32767 (x * 32768)))) / 32768"
  have "\<forall>i < length xs. \<bar>map ?q xs ! i - xs ! i\<bar> \<le> 1 / 32768"
  proof (intro allI impI)
    fix i
    assume i: "i < length xs"
    then have "xs ! i \<in> set xs" by simp
    with assms(2) have "- 1 \<le> xs ! i" "xs ! i \<le> 1" by blast+
    then have "\<bar>?q (xs ! i) - xs ! i\<bar> \<le> 1 / 32768" by (rule sample_error)
    with i show "\<bar>map ?q xs ! i - xs ! i\<bar> \<le> 1 / 32768" by simp
  qed
  moreover have "decodeAudio (encodeAudio xs) = Inr (map ?q xs)"
    using assms(1) by (rule decode_encode)
  ultimately show ?thesis by (intro exI [of _ "map ?q xs"]) simp
qed

theorem pcm_round_trip_witness:
  "\<exists>ys. decodeAudio (encodeAudio [1 / 2, - 1, 1, 3 / 10]) = Inr ys \<and> length ys = 4 \<and>
     \<bar>ys ! 2 - 1\<bar> \<le> 1 / 32768 \<and> \<bar>ys ! 3 - 3 / 10\<bar> \<le> 1 / 32768"
proof -
  have n: "[1 / 2, - 1, 1, 3 / 10 :: real] \<noteq> []" by simp
  have "\<forall>x \<in> set [1 / 2, - 1, 1, 3 / 10 :: real]. - 1 \<le> x \<and> x \<le> 1" by simp
  from pcm_round_trip [OF n this] obtain ys where
    ys: "decodeAudio (encodeAudio [1 / 2, - 1, 1, 3 / 10]) = Inr ys" "length ys = 4"
      "\<forall>i < 4. \<bar>ys ! i - [1 / 2, - 1, 1, 3 / 10] ! i\<bar> \<le> 1 / 32768"
    by auto
  from ys(3) have "\<bar>ys ! 2 - 1\<bar> \<le> 1 / 32768" "\<bar>ys ! 3 - 3 / 10\<bar> \<le> 1 / 32768"
    by (auto dest: spec [of _ 2] spec [of _ 3])
  with ys(1,2) show ?thesis by blast
qed

section \<open>Playback scheduling\<close>

lemma playAudio_playable:
  assumes "audioContext s \<noteq> None" and "playable chunk"
  shows "playAudio now source s chunk =
    (s\<lparr>nextStartTime := max now (nextStartTime s) + chunkDuration chunk,
       sources := set_add source (sources s)\<rparr>,
     [SourceStart source (max now (nextStartTime s))])"
  using assms
  by (auto simp: playAudio_def playable_def chunkDuration_def Let_def
      split: option.splits sum.splits)

lemma playAll_starts:
  assumes "audioContext s \<noteq> None" and "playable chunk"
    and "\<forall>c \<in> set rest. playable (snd (snd c))"
    and "keepsUp (fst (playAudio now source s chunk)) rest"
  shows "let cs = (now, source, chunk) # rest;
             ts = startTimes (snd (playAll s cs))
         in length ts = length cs \<and> ts ! 0 = max now (nextStartTime s) \<and>
            (\<forall>i < length rest. ts ! Suc i = ts ! i + chunkDuration (snd (snd (cs ! i))))"
  using assms
proof (induction rest arbitrary: s now source chunk)
  case Nil
  then show ?case by (simp add: playAudio_playable)
next
  case (Cons c rest)
  obtain now1 source1 chunk1 where c: "c = (now1, source1, chunk1)" by (cases c)
  define s1 where "s1 = fst (playAudio now source s chunk)"
  have s1: "playAudio now source s chunk = (s1, [SourceStart source (max now (nextStartTime s))])"
    and ctx: "audioContext s1 \<noteq> None"
    and cur: "nextStartTime s1 = max now (nextStartTime s) + chunkDuration chunk"
    using Cons.prems(1,2) by (simp_all add: s1_def playAudio_playable)
  from Cons.prems(3) have p1: "playable chunk1" and prest: "\<forall>c \<in> set rest. playable (snd (snd c))"
    by (simp_all add: c)
  from Cons.prems(4) have le: "now1 \<le> nextStartTime s1"
    and up: "keepsUp (fst (playAudio now1 source1 s1 chunk1)) rest"
    by (simp_all add: c s1_def)
  note IH = Cons.IH [OF ctx p1 prest up]
  define ts where "ts = startTimes (snd (playAll s1 ((now1, source1, chunk1) # rest)))"
  from IH have len: "length ts = Suc (length rest)"
    and hd: "ts ! 0 = max now1 (nextStartTime s1)"
    and tl: "\<forall>i < length rest. ts ! Suc i = ts ! i + chunkDuration (snd (snd (((now1, source1, chunk1) # rest) ! i)))"
    by (simp_all add: Let_def ts_def)
  have all: "startTimes (snd (playAll s ((now, source, chunk) # c # rest))) = max now (nextStartTime s) # ts"
    by (simp add: c s1 ts_def split: prod.splits)
  have "\<forall>i < length (c # rest). (max now (nextStartTime s) # ts) ! Suc i =
      (max now (nextStartTime s) # ts) ! i + chunkDuration (snd (snd (((now, source, chunk) # c # rest) ! i)))"
  proof (intro allI impI)
    fix i assume i: "i < length (c # rest)"
    show "(max now (nextStartTime s) # ts) ! Suc i =
      (max now (nextStartTime s) # ts) ! i + chunkDuration (snd (snd (((now, source, chunk) # c # rest) ! i)))"
    proof (cases i)
      case 0
      with hd le cur show ?thesis by simp
    next
      case (Suc j)
      with i have "j < length rest" by simp
      with tl Suc show ?thesis by (simp add: c)
    qed
  qed
  with len show ?case unfolding Let_def all by simp
qed

lemma decode_example: "decodeAudio ''AEAAgP9/'' = Inr [1 / 2, - 1, 32767 / 32768]"
  by (simp add: decodeAudio_def atob_def ascii_whitespace_def strip_padding_def b64_value_def
      b64_alphabet_def createBuffer_def Let_def)

lemma playable_example: "playable ''AEAAgP9/''"
  by (simp add: playable_def decode_example)

lemma chunkDuration_example: "chunkDuration ''AEAAgP9/'' = 1 / 8000"
  by (simp add: chunkDuration_def decode_example duration_def)

text \<open>
  C2. Every enqueue of a playable chunk on a session with an output context schedules the
  chunk at the maximum of the clock reading and \<open>nextStartTime\<close>, which is not before the
  clock reading, and leaves \<open>nextStartTime\<close> at that start time plus the duration of the
  chunk. Hence in a run of enqueues in which the clock never passes \<open>nextStartTime\<close>,
  each start time is the previous start time plus the previous duration.
\<close>

theorem playback_schedule:
  assumes "audioContext s \<noteq> None" and "playable chunk"
    and "\<forall>c \<in> set rest. playable (snd (snd c))"
    and "keepsUp (fst (playAudio now source s chunk)) rest"
  shows "snd (playAudio now source s chunk) = [SourceStart source (max now (nextStartTime s))] \<and>
         now \<le> max now (nextStartTime s) \<and>
         nextStartTime (fst (playAudio now source s chunk)) =
           max now (nextStartTime s) + chunkDuration chunk \<and>
         (let cs = (now, source, chunk) # rest;
              ts = startTimes (snd (playAll s cs))
          in length ts = length cs \<and>
             (\<forall>i < length rest. ts ! Suc i = ts ! i + chunkDuration (snd (snd (cs ! i)))))"
proof -
  have "snd (playAudio now source s chunk) = [SourceStart source (max now (nextStartTime s))]"
    and "nextStartTime (fst (playAudio now source s chunk)) =
           max now (nextStartTime s) + chunkDuration chunk"
    using assms(1,2) by (simp_all add: playAudio_playable)
  moreover have "let cs = (now, source, chunk) # rest;
              ts = startTimes (snd (playAll s cs))
          in length ts = length cs \<and>
             (\<forall>i < length rest. ts ! Suc i = ts ! i + chunkDuration (snd (snd (cs ! i))))"
    using playAll_starts [OF assms] by (simp add: Let_def)
  ultimately show ?thesis by simp
qed

theorem playback_schedule_witness:
  "startTimes (snd (playAll (initial\<lparr>audioContext := Some 1\<rparr>)
      [(1, 7, ''AEAAgP9/''), (1, 8, ''AEAAgP9/'')])) = [1, 1 + 1 / 8000] \<and>
   snd (playAudio 1 7 (initial\<lparr>audioContext := Some 1\<rparr>) ''AEAAgP9/'') = [SourceStart 7 1] \<and>
   nextStartTime (fst (playAudio 1 7 (initial\<lparr>audioContext := Some 1\<rparr>) ''AEAAgP9/'')) = 1 + 1 / 8000"
proof -
  let ?s = "initial\<lparr>audioContext := Some 1\<rparr>"
  let ?c = "''AEAAgP9/''"
  have ctx: "audioContext ?s \<noteq> None" by simp
  have rest: "\<forall>c \<in> set [(1::real, 8::handle, ?c)]. playable (snd (snd c))"
    by (simp add: playable_example)
  have up: "keepsUp (fst (playAudio 1 7 ?s ?c)) [(1, 8, ?c)]"
    by (simp add: playAudio_playable playable_example chunkDuration_example)
  note w = playback_schedule [OF ctx playable_example rest up]
  define ts where "ts = startTimes (snd (playAll ?s [(1, 7, ?c), (1, 8, ?c)]))"
  from w have "length ts = 2" "ts ! Suc 0 = ts ! 0 + chunkDuration ?c"
    "snd (playAudio 1 7 ?s ?c) = [SourceStart 7 (max 1 (nextStartTime ?s))]"
    "nextStartTime (fst (playAudio 1 7 ?s ?c)) = max 1 (nextStartTime ?s) + chunkDuration ?c"
    by (simp_all add: Let_def ts_def)
  moreover have "ts ! 0 = 1"
    by (simp add: ts_def playAudio_playable playable_example initial_def split: prod.splits)
  moreover have "nextStartTime ?s = 0" by (simp add: initial_def)
  ultimately have "ts = [1, 1 + 1 / 8000]" and "snd (playAudio 1 7 ?s ?c) = [SourceStart 7 1]"
    and "nextStartTime (fst (playAudio 1 7 ?s ?c)) = 1 + 1 / 8000"
    by (simp_all add: chunkDuration_example list_eq_iff_nth_eq nth_Cons' less_Suc_eq numeral_2_eq_2)
  then show ?thesis by (simp add: ts_def)
qed

section \<open>What each handler changes\<close>

lemma playAudio_frame:
  "audioContext (fst (playAudio now source s chunk)) = audioContext s"
  "inputAudioContext (fst (playAudio now source s chunk)) = inputAudioContext s"
  "stream (fst (playAudio now source s chunk)) = stream s"
  "sessionPromise (fst (playAudio now source s chunk)) = sessionPromise s"
  "currentInputTranscription (fst (playAudio now source s chunk)) = currentInputTranscription s"
  "currentOutputTranscription (fst (playAudio now source s chunk)) = currentOutputTranscription s"
  by (simp_all add: playAudio_def Let_def split: option.splits sum.splits)

lemma duration_nonneg: "0 \<le> duration samples"
  by (simp add: duration_def)

lemma playAudio_cursor: "nextStartTime s \<le> nextStartTime (fst (playAudio now source s chunk))"
proof -
  have "nextStartTime s \<le> max now (nextStartTime s) + duration b" for b
    using duration_nonneg [of b] by linarith
  then show ?thesis
    by (simp add: playAudio_def Let_def split: option.splits sum.splits)
qed

lemma playAudio_sources:
  "set (sources s) \<subseteq> set (sources (fst (playAudio now source s chunk)))"
  by (auto simp: playAudio_def Let_def set_add_def split: option.splits sum.splits)

lemma handleAudio_frame:
  "audioContext (fst (handleAudio h m s)) = audioContext s"
  "inputAudioContext (fst (handleAudio h m s)) = inputAudioContext s"
  "stream (fst (handleAudio h m s)) = stream s"
  "sessionPromise (fst (handleAudio h m s)) = sessionPromise s"
  "currentInputTranscription (fst (handleAudio h m s)) = currentInputTranscription s"
  "currentOutputTranscription (fst (handleAudio h m s)) = currentOutputTranscription s"
  by (simp_all add: handleAudio_def playAudio_frame)

lemma handleAudio_cursor: "nextStartTime s \<le> nextStartTime (fst (handleAudio h m s))"
  by (simp add: handleAudio_def playAudio_cursor)

lemma handleAudio_sources: "set (sources s) \<subseteq> set (sources (fst (handleAudio h m s)))"
  using playAudio_sources by (simp add: handleAudio_def)

lemma handleOutputTranscription_state:
  "fst (handleOutputTranscription m s) =
     s\<lparr>currentOutputTranscription := currentOutputTranscription s @ outputText m\<rparr>"
  by (simp add: handleOutputTranscription_def outputText_def Let_def split: option.splits)

lemma handleInputTranscription_state:
  "fst (handleInputTranscription m s) =
     s\<lparr>currentInputTranscription := currentInputTranscription s @ inputText m\<rparr>"
  by (simp add: handleInputTranscription_def inputText_def Let_def split: option.splits)

lemma handleTurnComplete_state:
  "fst (handleTurnComplete m s) =
     (if turnComplete m
      then s\<lparr>currentInputTranscription := [], currentOutputTranscription := []\<rparr> else s)"
  by (simp add: handleTurnComplete_def)

lemma handleInterruption_state:
  "fst (handleInterruption m s) =
     (if interrupted m
      then s\<lparr>sources := [], currentOutputTranscription := [], nextStartTime := 0\<rparr> else s)"
  by (simp add: handleInterruption_def stopAudio_def)

lemma handleInterruption_events:
  "snd (handleInterruption m s) = (if interrupted m then map SourceStop (sources s) else [])"
  by (simp add: handleInterruption_def stopAudio_def)

lemma handleMessage_state:
  "fst (handleMessage h s m) =
     fst (handleInterruption m (fst (handleTurnComplete m (fst (handleInputTranscription m
       (fst (handleOutputTranscription m (fst (handleAudio h m s)))))))))"
  by (simp add: handleMessage_def split: prod.splits)

lemma handleMessage_events:
  "snd (handleMessage h s m) =
     (let s1 = fst (handleAudio h m s);
          s2 = fst (handleOutputTranscription m s1);
          s3 = fst (handleInputTranscription m s2);
          s4 = fst (handleTurnComplete m s3);
          s5 = fst (handleInterruption m s4)
      in snd (handleAudio h m s) @ snd (handleOutputTranscription m s1)
         @ snd (handleInputTranscription m s2) @ snd (handleTurnComplete m s3)
         @ snd (handleInterruption m s4)
         @ (case toolCall m of None \<Rightarrow> []
            | Some functionCalls \<Rightarrow> fst (handleToolCall (generateImages h) s5 functionCalls)))"
  by (auto simp: handleMessage_def Let_def split: prod.splits option.splits)

lemma handleMessage_input:
  "currentInputTranscription (fst (handleMessage h s m)) =
     (if turnComplete m then [] else currentInputTranscription s @ inputText m)"
  by (simp add: handleMessage_state handleInterruption_state handleTurnComplete_state
      handleInputTranscription_state handleOutputTranscription_state handleAudio_frame)

lemma handleMessage_output:
  "currentOutputTranscription (fst (handleMessage h s m)) =
     (if turnComplete m \<or> interrupted m then []
      else currentOutputTranscription s @ outputText m)"
  by (simp add: handleMessage_state handleInterruption_state handleTurnComplete_state
      handleInputTranscription_state handleOutputTranscription_state handleAudio_frame)

lemma handleMessage_cursor:
  "nextStartTime (fst (handleMessage h s m)) =
     (if interrupted m then 0 else nextStartTime (fst (handleAudio h m s)))"
  by (simp add: handleMessage_state handleInterruption_state handleTurnComplete_state
      handleInputTranscription_state handleOutputTranscription_state)

lemma handleMessage_sources:
  "sources (fst (handleMessage h s m)) =
     (if interrupted m then [] else sources (fst (handleAudio h m s)))"
  by (simp add: handleMessage_state handleInterruption_state handleTurnComplete_state
      handleInputTranscription_state handleOutputTranscription_state)

lemma handleMessage_frame:
  "audioContext (fst (handleMessage h s m)) = audioContext s"
  "inputAudioContext (fst (handleMessage h s m)) = inputAudioContext s"
  "stream (fst (handleMessage h s m)) = stream s"
  "sessionPromise (fst (handleMessage h s m)) = sessionPromise s"
  by (simp_all add: handleMessage_state handleInterruption_state handleTurnComplete_state
      handleInputTranscription_state handleOutputTranscription_state handleAudio_frame)

lemma handleMessage_stops:
  assumes "interrupted m"
  shows "\<forall>x \<in> set (sources (fst (handleAudio h m s))).
           SourceStop x \<in> set (snd (handleMessage h s m))"
proof
  fix x assume x: "x \<in> set (sources (fst (handleAudio h m s)))"
  define s4 where "s4 = fst (handleTurnComplete m (fst (handleInputTranscription m
       (fst (handleOutputTranscription m (fst (handleAudio h m s)))))))"
  have "sources s4 = sources (fst (handleAudio h m s))"
    by (simp add: s4_def handleTurnComplete_state
        handleInputTranscription_state handleOutputTranscription_state)
  with x assms have "SourceStop x \<in> set (snd (handleInterruption m s4))"
    by (simp add: handleInterruption_events)
  then show "SourceStop x \<in> set (snd (handleMessage h s m))"
    by (simp add: handleMessage_events Let_def s4_def)
qed

section \<open>Interruption\<close>

text \<open>The sample session \<open>playing\<close> is a state that the object reaches.\<close>

lemma playing_reached: "fst (run initial [Connect devices, Open, Message quiet speech]) = playing"
  by (simp add: connect_def devices_def initial_def handleOpen_def quiet_def speech_def
      handleMessage_def handleAudio_def handleOutputTranscription_def
      handleInputTranscription_def handleTurnComplete_def handleInterruption_def
      truthy_def js_string_def playAudio_def decode_example duration_def
      set_add_def playing_def Let_def)

text \<open>
  C3. \<open>stopAudio\<close> stops every source of the active set and empties the set. It is
  invoked by the interruption branch of \<open>handleMessage\<close> and nowhere else, and the branch
  sets \<open>nextStartTime\<close> to \<open>0\<close> before it returns. So after any invocation of the stop,
  that is after any message that interrupts, every source of the active set has been
  stopped, the active set is empty and \<open>nextStartTime\<close> is \<open>0\<close>, and the next enqueue
  starts at the clock reading.
\<close>

theorem stopAudio_effect:
  "(\<forall>x \<in> set (sources s). SourceStop x \<in> set (snd (stopAudio s))) \<and>
   sources (fst (stopAudio s)) = [] \<and>
   snd (handleInterruption m s) = (if interrupted m then snd (stopAudio s) else []) \<and>
   (interrupted m \<longrightarrow>
      sources (fst (handleInterruption m s)) = [] \<and>
      nextStartTime (fst (handleInterruption m s)) = 0 \<and>
      (\<forall>x \<in> set (sources s). SourceStop x \<in> set (snd (handleMessage h s m))) \<and>
      sources (fst (handleMessage h s m)) = [] \<and>
      nextStartTime (fst (handleMessage h s m)) = 0 \<and>
      (\<forall>now source chunk. 0 \<le> now \<and> audioContext s \<noteq> None \<and> playable chunk \<longrightarrow>
         snd (playAudio now source (fst (handleMessage h s m)) chunk) = [SourceStart source now]))"
proof -
  have "\<forall>x \<in> set (sources s). SourceStop x \<in> set (snd (stopAudio s))"
    and "sources (fst (stopAudio s)) = []"
    and "snd (handleInterruption m s) = (if interrupted m then snd (stopAudio s) else [])"
    by (simp_all add: stopAudio_def handleInterruption_events)
  moreover have "\<forall>now source chunk. 0 \<le> now \<and> audioContext s \<noteq> None \<and> playable chunk \<longrightarrow>
         snd (playAudio now source (fst (handleMessage h s m)) chunk) = [SourceStart source now]"
    if "interrupted m"
    using that by (simp add: playAudio_playable handleMessage_frame handleMessage_cursor)
  moreover have "\<forall>x \<in> set (sources s). SourceStop x \<in> set (snd (handleMessage h s m))"
    if "interrupted m"
    using handleMessage_stops [OF that, of h s] handleAudio_sources [of s h m] by blast
  ultimately show ?thesis
    by (simp add: handleMessage_sources handleMessage_cursor handleInterruption_state)
qed

theorem stopAudio_effect_witness:
  "SourceStop 7 \<in> set (snd (stopAudio playing)) \<and>
   sources (fst (stopAudio playing)) = [] \<and>
   snd (handleInterruption (no_message\<lparr>interrupted := True\<rparr>) playing) = [SourceStop 7] \<and>
   nextStartTime (fst (handleInterruption (no_message\<lparr>interrupted := True\<rparr>) playing)) = 0 \<and>
   SourceStop 7 \<in> set (snd (handleMessage quiet playing (no_message\<lparr>interrupted := True\<rparr>))) \<and>
   sources (fst (handleMessage quiet playing (no_message\<lparr>interrupted := True\<rparr>))) = [] \<and>
   nextStartTime (fst (handleMessage quiet playing (no_message\<lparr>interrupted := True\<rparr>))) = 0 \<and>
   snd (playAudio 2 8 (fst (handleMessage quiet playing (no_message\<lparr>interrupted := True\<rparr>)))
     ''AEAAgP9/'') = [SourceStart 8 2]"
proof -
  have i: "interrupted (no_message\<lparr>interrupted := True\<rparr>)" by simp
  have s: "sources playing = [7]" "audioContext playing \<noteq> None"
    "snd (stopAudio playing) = [SourceStop 7]"
    by (simp_all add: playing_def stopAudio_def)
  have n: "(0::real) \<le> 2" by simp
  show ?thesis
    using stopAudio_effect [of playing "no_message\<lparr>interrupted := True\<rparr>" quiet] i s n
      playable_example
    by simp
qed

text \<open>
  C4. In every state, handling a message that interrupts stops all scheduled playback
  (the chunk of the same message included), empties the active set and the output
  transcript, and leaves \<open>nextStartTime\<close> at \<open>0\<close>. The interruption does not touch the
  input transcript: it is what the other parts of the message made of it, and it is
  unchanged when the message carries no input transcription and does not complete the
  turn.
\<close>

theorem interruption_effect:
  assumes "interrupted m"
  shows "(\<forall>x \<in> set (sources (fst (handleAudio h m s))).
            SourceStop x \<in> set (snd (handleMessage h s m))) \<and>
         set (sources s) \<subseteq> set (sources (fst (handleAudio h m s))) \<and>
         sources (fst (handleMessage h s m)) = [] \<and>
         currentOutputTranscription (fst (handleMessage h s m)) = [] \<and>
         nextStartTime (fst (handleMessage h s m)) = 0 \<and>
         currentInputTranscription (fst (handleMessage h s m)) =
           (if turnComplete m then [] else currentInputTranscription s @ inputText m) \<and>
         (inputTranscription m = None \<and> \<not> turnComplete m \<longrightarrow>
            currentInputTranscription (fst (handleMessage h s m)) = currentInputTranscription s)"
  using assms handleMessage_stops [OF assms, of h s] handleAudio_sources [of s h m]
  by (simp add: handleMessage_sources handleMessage_output handleMessage_cursor
      handleMessage_input inputText_def)

theorem interruption_effect_witness:
  "SourceStop 7 \<in> set (snd (handleMessage quiet playing (no_message\<lparr>interrupted := True\<rparr>))) \<and>
   sources (fst (handleMessage quiet playing (no_message\<lparr>interrupted := True\<rparr>))) = [] \<and>
   currentOutputTranscription (fst (handleMessage quiet playing (no_message\<lparr>interrupted := True\<rparr>))) = [] \<and>
   nextStartTime (fst (handleMessage quiet playing (no_message\<lparr>interrupted := True\<rparr>))) = 0 \<and>
   currentInputTranscription (fst (handleMessage quiet playing (no_message\<lparr>interrupted := True\<rparr>))) = ''draw''"
proof -
  let ?m = "no_message\<lparr>interrupted := True\<rparr>"
  have i: "interrupted ?m" by simp
  have m: "inputTranscription ?m = None" "\<not> turnComplete ?m" "audioData ?m = None"
    by (simp_all add: no_message_def)
  have a: "sources (fst (handleAudio quiet ?m playing)) = [7]"
    by (simp add: handleAudio_def m truthy_def playing_def)
  have s: "currentInputTranscription playing = ''draw''"
    by (simp add: playing_def)
  show ?thesis
    using interruption_effect [OF i, of quiet playing] m a s by (simp add: inputText_def)
qed

section \<open>Transcripts\<close>

lemma dispatch_not_final: "filter isFinal (fst (dispatch api s calls)) = []"
  by (induction calls) (auto simp: Let_def split: option.splits prod.splits promise.splits)

lemma handleToolCall_not_final: "filter isFinal (fst (handleToolCall api s functionCalls)) = []"
  by (simp add: handleToolCall_def dispatch_not_final split: option.splits)

lemma playAudio_not_final: "filter isFinal (snd (playAudio now source s chunk)) = []"
  by (simp add: playAudio_def Let_def split: option.splits sum.splits)

lemma handleMessage_final:
  "filter isFinal (snd (handleMessage h s m)) =
     (if turnComplete m
      then [TranscriptUpdate (currentInputTranscription s @ inputText m)
              (currentOutputTranscription s @ outputText m) True]
      else [])"
proof -
  have "filter isFinal (snd (handleAudio h m s)) = []"
    by (simp add: handleAudio_def playAudio_not_final)
  moreover have "filter isFinal (snd (handleOutputTranscription m s')) = []" for s'
    by (simp add: handleOutputTranscription_def Let_def split: option.splits)
  moreover have "filter isFinal (snd (handleInputTranscription m s')) = []" for s'
    by (simp add: handleInputTranscription_def Let_def split: option.splits)
  moreover have "filter isFinal (snd (handleInterruption m s')) = []" for s'
    by (auto simp: handleInterruption_events filter_empty_conv)
  moreover have "filter isFinal (snd (handleTurnComplete m s')) =
     (if turnComplete m
      then [TranscriptUpdate (currentInputTranscription s') (currentOutputTranscription s') True]
      else [])" for s'
    by (simp add: handleTurnComplete_def)
  ultimately show ?thesis
    by (simp add: handleMessage_events Let_def handleToolCall_not_final
        handleInputTranscription_state handleOutputTranscription_state handleAudio_frame
        split: option.splits)
qed

lemma run_state: "fst (run s (op # ops)) = fst (run (fst (step s op)) ops)"
  by (simp add: split_beta)

lemma run_partials:
  assumes "\<forall>op \<in> set ops. partial op"
  shows "currentInputTranscription (fst (run s ops)) =
           currentInputTranscription s @ concat (map inputPartial ops) \<and>
         currentOutputTranscription (fst (run s ops)) =
           currentOutputTranscription s @ concat (map outputPartial ops)"
  using assms
proof (induction ops arbitrary: s)
  case Nil
  show ?case by simp
next
  case (Cons op ops)
  from Cons.prems have "partial op" by simp
  then obtain h m where op: "op = Message h m" and m: "\<not> turnComplete m" "\<not> interrupted m"
    by (cases op) simp_all
  from Cons.prems have "\<forall>op \<in> set ops. partial op" by simp
  from Cons.IH [OF this, of "fst (handleMessage h s m)"] m show ?case
    by (simp add: op run_state handleMessage_input handleMessage_output del: run.simps)
qed

text \<open>
  C5. After any sequence of partial events, handling a message that completes the turn
  fires the transcript callback with \<open>isFinal = true\<close> exactly once, carrying for each
  buffer what it held before the sequence followed by the texts of the partials in
  arrival order (those of the completing message included), and leaves both buffers
  empty.
\<close>

theorem turn_complete:
  assumes "\<forall>op \<in> set ops. partial op" and "turnComplete m"
  shows "(let s1 = fst (run s ops);
              s2 = fst (handleMessage h s1 m);
              evs = snd (handleMessage h s1 m)
          in filter isFinal evs =
               [TranscriptUpdate
                  (currentInputTranscription s @ concat (map inputPartial (ops @ [Message h m])))
                  (currentOutputTranscription s @ concat (map outputPartial (ops @ [Message h m])))
                  True] \<and>
             currentInputTranscription s2 = [] \<and> currentOutputTranscription s2 = [])"
  using run_partials [OF assms(1), of s] assms(2)
  by (simp add: Let_def handleMessage_final handleMessage_input handleMessage_output)

theorem turn_complete_witness:
  "filter isFinal (snd (handleMessage quiet
      (fst (run initial [Message quiet speech,
         Message quiet (no_message\<lparr>outputTranscription := Some (Some '' thing'')\<rparr>)]))
      (no_message\<lparr>turnComplete := True\<rparr>))) = [TranscriptUpdate ''draw'' ''Sure thing'' True] \<and>
   currentInputTranscription (fst (handleMessage quiet
      (fst (run initial [Message quiet speech,
         Message quiet (no_message\<lparr>outputTranscription := Some (Some '' thing'')\<rparr>)]))
      (no_message\<lparr>turnComplete := True\<rparr>))) = [] \<and>
   currentOutputTranscription (fst (handleMessage quiet
      (fst (run initial [Message quiet speech,
         Message quiet (no_message\<lparr>outputTranscription := Some (Some '' thing'')\<rparr>)]))
      (no_message\<lparr>turnComplete := True\<rparr>))) = []"
proof -
  let ?ops = "[Message quiet speech,
         Message quiet (no_message\<lparr>outputTranscription := Some (Some '' thing'')\<rparr>)]"
  let ?m = "no_message\<lparr>turnComplete := True\<rparr>"
  have p: "\<forall>op \<in> set ?ops. partial op" by (simp add: speech_def no_message_def)
  have t: "turnComplete ?m" by simp
  have i: "concat (map inputPartial (?ops @ [Message quiet ?m])) = ''draw''"
    by (simp add: inputText_def speech_def no_message_def js_string_def)
  have out: "concat (map outputPartial (?ops @ [Message quiet ?m])) = ''Sure thing''"
    by (simp add: outputText_def speech_def no_message_def js_string_def)
  have s: "currentInputTranscription initial = []" "currentOutputTranscription initial = []"
    by (simp_all add: initial_def)
  show ?thesis
    using turn_complete [OF p t, of initial quiet] unfolding Let_def i out s by simp
qed

section \<open>Teardown\<close>

text \<open>
  C6 as stated does not hold: two calls of \<open>disconnect\<close> on the sample session invoke the
  status callback with \<open>false\<close> twice.
\<close>

theorem disconnect_twice_counterexample:
  "count_list (snd (disconnect playing) @ snd (disconnect (fst (disconnect playing))))
     (StatusChange False) = 2"
  by (simp add: disconnect_def playing_def)

text \<open>
  C6, amended. Two calls of \<open>disconnect\<close> in succession on a connected session invoke the
  status callback with \<open>false\<close> once per call, twice in all; the first call stops the
  tracks of the stream and closes the input and the output context, once each, and the
  second call releases nothing and leaves the state as it is. \<open>disconnect\<close> has no
  failing branch.
\<close>

theorem disconnect_twice:
  assumes "stream s = Some st" and "inputAudioContext s = Some ictx"
    and "audioContext s = Some octx"
  shows "(let evs1 = snd (disconnect s);
              s1 = fst (disconnect s);
              evs2 = snd (disconnect s1);
              s2 = fst (disconnect s1)
          in evs1 = [StatusChange False, TracksStop st, ContextClose ictx, ContextClose octx] \<and>
             evs2 = [StatusChange False] \<and>
             s2 = s1 \<and>
             statusChanges (evs1 @ evs2) = [False, False] \<and>
             count_list (evs1 @ evs2) (TracksStop st) = 1 \<and>
             (ictx \<noteq> octx \<longrightarrow>
                count_list (evs1 @ evs2) (ContextClose ictx) = 1 \<and>
                count_list (evs1 @ evs2) (ContextClose octx) = 1))"
  using assms by (simp add: disconnect_def Let_def)

theorem disconnect_twice_witness:
  "snd (disconnect playing) = [StatusChange False, TracksStop 3, ContextClose 1, ContextClose 2] \<and>
   snd (disconnect (fst (disconnect playing))) = [StatusChange False] \<and>
   statusChanges (snd (disconnect playing) @ snd (disconnect (fst (disconnect playing)))) =
     [False, False] \<and>
   count_list (snd (disconnect playing) @ snd (disconnect (fst (disconnect playing))))
     (ContextClose 1) = 1"
proof -
  have h: "stream playing = Some 3" "inputAudioContext playing = Some 1"
    "audioContext playing = Some 2"
    by (simp_all add: playing_def)
  have d: "(1::handle) \<noteq> 2" by simp
  show ?thesis
    using disconnect_twice [OF h] d unfolding Let_def by simp
qed

section \<open>Connection\<close>

lemma disconnect_status: "statusChanges (snd (disconnect s)) = [False]"
  by (simp add: disconnect_def split: option.splits)

lemma connect_result: "fst (connect p s) = (case raised p of Some e \<Rightarrow> Inl e | None \<Rightarrow> Inr ())"
  by (simp add: connect_def connect_failed_def raised_def Let_def split_beta split: sum.splits)

lemma connect_status:
  "statusChanges (snd (snd (connect p s))) =
     (if acquired p then [True] else []) @ (if raised p = None then [] else [False])"
  by (simp add: connect_def connect_failed_def raised_def acquired_def Let_def split_beta
      disconnect_status split: sum.splits)

text \<open>
  C7 as stated does not hold: on a platform whose transport never confirms that it is
  open, \<open>connect\<close> alone, with no open-confirmation handled, has already fired the status
  callback with \<open>true\<close>, and it returns without an error.
\<close>

theorem connect_counterexample:
  "snd (run initial [Connect unreachable]) = [StatusChange True] \<and>
   fst (connect unreachable initial) = Inr ()"
  by (simp add: connect_def unreachable_def)

lemma connect_first:
  "acquired p \<Longrightarrow> \<exists>evs. snd (snd (connect p s)) = StatusChange True # evs"
  by (auto simp: connect_def connect_failed_def acquired_def Let_def split_beta
      split: sum.splits)

text \<open>
  C7, amended. In every run of \<open>connect\<close> the status callback is fired with \<open>true\<close>
  exactly when the two audio contexts and the capture stream have been acquired, as the
  first thing the object does to the outside, before the transport is asked to open and
  whatever the transport then does; the open-confirmation handler fires no status
  callback. When a step of \<open>connect\<close> raises (a context constructor, \<open>getUserMedia\<close> or
  the call of \<open>ai.live.connect\<close>), the status callback fires with \<open>false\<close>, after the
  \<open>true\<close> if there was one, and the error raised is the result of \<open>connect\<close>; when no
  step raises there is no \<open>false\<close> and no error.
\<close>

theorem connect_callbacks:
  "statusChanges (snd (snd (connect p s))) =
     (if acquired p then [True] else []) @ (if raised p = None then [] else [False]) \<and>
   (acquired p \<longrightarrow> (\<exists>evs. snd (snd (connect p s)) = StatusChange True # evs)) \<and>
   statusChanges (snd (handleOpen s)) = [] \<and>
   fst (connect p s) = (case raised p of Some e \<Rightarrow> Inl e | None \<Rightarrow> Inr ())"
  using connect_first [of p s]
  by (simp add: connect_status connect_result handleOpen_def split: option.splits)

theorem connect_callbacks_witness:
  "statusChanges (snd (snd (connect devices initial))) = [True] \<and>
   (\<exists>evs. snd (snd (connect devices initial)) = StatusChange True # evs) \<and>
   fst (connect devices initial) = Inr () \<and>
   statusChanges (snd (snd (connect (devices\<lparr>liveConnect := Inl (HostError ''refused'')\<rparr>) initial)))
     = [True, False] \<and>
   fst (connect (devices\<lparr>liveConnect := Inl (HostError ''refused'')\<rparr>) initial)
     = Inl (HostError ''refused'') \<and>
   statusChanges (snd (snd (connect (devices\<lparr>getUserMedia := Inl (HostError ''denied'')\<rparr>) initial)))
     = [False] \<and>
   fst (connect (devices\<lparr>getUserMedia := Inl (HostError ''denied'')\<rparr>) initial)
     = Inl (HostError ''denied'')"
proof -
  let ?refused = "devices\<lparr>liveConnect := Inl (HostError ''refused'')\<rparr>"
  let ?denied = "devices\<lparr>getUserMedia := Inl (HostError ''denied'')\<rparr>"
  have a: "acquired devices" "acquired ?refused" "\<not> acquired ?denied"
    by (simp_all add: acquired_def devices_def)
  have r: "raised devices = None" "raised ?refused = Some (HostError ''refused'')"
    "raised ?denied = Some (HostError ''denied'')"
    by (simp_all add: raised_def devices_def)
  show ?thesis
    using connect_callbacks [of devices initial] connect_callbacks [of ?refused initial]
      connect_callbacks [of ?denied initial] a r
    by simp
qed

section \<open>Tool dispatch\<close>













section \<open>The playback cursor over runs\<close>

lemma disconnect_cursor: "nextStartTime (fst (disconnect s)) = nextStartTime s"
  by (simp add: disconnect_def)

lemma connect_cursor: "nextStartTime (fst (snd (connect p s))) = nextStartTime s"
  by (simp add: connect_def connect_failed_def Let_def split_beta disconnect_cursor
      split: sum.splits)

lemma step_monotone:
  assumes "\<not> interruption op"
  shows "nextStartTime s \<le> nextStartTime (fst (step s op))"
proof (cases op)
  case (Message h m)
  with assms show ?thesis by (simp add: handleMessage_cursor handleAudio_cursor)
qed (simp_all add: connect_cursor disconnect_cursor handleOpen_def onaudioprocess_def
    onended_def split: option.splits promise.splits)

lemma step_interruption:
  assumes "interruption op"
  shows "nextStartTime (fst (step s op)) = 0"
  using assms by (cases op) (simp_all add: handleMessage_cursor)

lemma run_monotone:
  assumes "\<forall>op \<in> set ops. \<not> interruption op"
  shows "nextStartTime s \<le> nextStartTime (fst (run s ops))"
  using assms
proof (induction ops arbitrary: s)
  case Nil
  show ?case by simp
next
  case (Cons op ops)
  from Cons.prems have "nextStartTime s \<le> nextStartTime (fst (step s op))"
    by (simp add: step_monotone)
  also from Cons.prems have "\<dots> \<le> nextStartTime (fst (run (fst (step s op)) ops))"
    by (simp add: Cons.IH)
  finally show ?case by (simp add: run_state del: run.simps)
qed

text \<open>
  C9. Every operation on the session other than handling a message that interrupts leaves
  \<open>nextStartTime\<close> at least as large as it was, and handling a message that interrupts
  leaves it at \<open>0\<close>; hence over every sequence of operations without an interruption
  \<open>nextStartTime\<close> does not decrease.
\<close>

theorem cursor_monotone:
  "(\<not> interruption op \<longrightarrow> nextStartTime s \<le> nextStartTime (fst (step s op))) \<and>
   (interruption op \<longrightarrow> nextStartTime (fst (step s op)) = 0) \<and>
   ((\<forall>op \<in> set ops. \<not> interruption op) \<longrightarrow>
      nextStartTime s \<le> nextStartTime (fst (run s ops)))"
  using step_monotone [of op s] step_interruption [of op s] run_monotone [of ops s]
  by blast

theorem cursor_monotone_witness:
  "nextStartTime playing \<le>
     nextStartTime (fst (run playing [Message (quiet\<lparr>newSource := 8\<rparr>) speech, Ended 7,
        Message painter (no_message\<lparr>toolCall := Some (Some [cat])\<rparr>), Disconnect, Connect devices])) \<and>
   nextStartTime (fst (step playing (Message quiet (no_message\<lparr>interrupted := True\<rparr>)))) = 0 \<and>
   nextStartTime playing \<le> nextStartTime (fst (step playing Disconnect))"
proof -
  let ?ops = "[Message (quiet\<lparr>newSource := 8\<rparr>) speech, Ended 7,
        Message painter (no_message\<lparr>toolCall := Some (Some [cat])\<rparr>), Disconnect, Connect devices]"
  have n: "\<forall>op \<in> set ?ops. \<not> interruption op"
    by (simp add: speech_def no_message_def)
  have i: "interruption (Message quiet (no_message\<lparr>interrupted := True\<rparr>))"
    "\<not> interruption Disconnect"
    by simp_all
  show ?thesis
    using cursor_monotone [of "Message quiet (no_message\<lparr>interrupted := True\<rparr>)" playing ?ops]
      cursor_monotone [of Disconnect playing "[]"] n i
    by blast
qed

text \<open>
  C10. \<open>disconnect\<close> leaves \<open>nextStartTime\<close> as it is, empties both transcripts and
  clears the stream, both audio contexts and the session handle. So the first chunk that
  is played after a following successful \<open>connect\<close> starts at the maximum of the clock
  reading and the value that \<open>nextStartTime\<close> had before the \<open>disconnect\<close>, not at
  the clock reading.
\<close>

theorem disconnect_keeps_cursor:
  "nextStartTime (fst (disconnect s)) = nextStartTime s \<and>
   currentInputTranscription (fst (disconnect s)) = [] \<and>
   currentOutputTranscription (fst (disconnect s)) = [] \<and>
   stream (fst (disconnect s)) = None \<and>
   inputAudioContext (fst (disconnect s)) = None \<and>
   audioContext (fst (disconnect s)) = None \<and>
   sessionPromise (fst (disconnect s)) = None \<and>
   (raised p = None \<and> playable chunk \<longrightarrow>
      snd (playAudio now source (fst (snd (connect p (fst (disconnect s))))) chunk) =
        [SourceStart source (max now (nextStartTime s))])"
proof -
  have "snd (playAudio now source (fst (snd (connect p (fst (disconnect s))))) chunk) =
        [SourceStart source (max now (nextStartTime s))]"
    if "raised p = None" and "playable chunk"
  proof -
    from that(1) have "audioContext (fst (snd (connect p (fst (disconnect s))))) \<noteq> None"
      by (simp add: connect_def raised_def Let_def split: sum.splits)
    with that(2) show ?thesis
      by (simp add: playAudio_playable connect_cursor disconnect_cursor)
  qed
  then show ?thesis by (simp add: disconnect_def)
qed

theorem disconnect_keeps_cursor_witness:
  "nextStartTime (fst (disconnect playing)) = 8001 / 8000 \<and>
   snd (playAudio 0 9 (fst (snd (connect devices (fst (disconnect playing))))) ''AEAAgP9/'') =
     [SourceStart 9 (8001 / 8000)]"
proof -
  have r: "raised devices = None" by (simp add: raised_def devices_def)
  have n: "nextStartTime playing = 8001 / 8000" by (simp add: playing_def)
  show ?thesis
    using disconnect_keeps_cursor [of playing devices "''AEAAgP9/''" 0 9] r playable_example n
    by simp
qed

end
